theory Spec2Isabelle
  imports Main
begin

unbundle bit_operations_syntax

section \<open>Squares, pieces and moves\<close>

text \<open>
  The program (\<open>chess_backend.py\<close>) plays chess through the python-chess library. A
  square is a Python integer from 0 (a1) to 63 (h8), a colour is a boolean
  (\<open>chess.WHITE = True\<close>, \<open>chess.BLACK = False\<close>), a move is the library's dataclass
  \<open>chess.Move(from_square, to_square, promotion=None, drop=None)\<close>, compared
  structurally (the field \<open>drop\<close> is \<open>drop_piece\<close> here).
\<close>

type_synonym square = int

definition WHITE_side :: bool where
  "WHITE_side = True"

definition BLACK_side :: bool where
  "BLACK_side = False"

datatype piece_type = PAWN | KNIGHT | BISHOP | ROOK | QUEEN | KING

datatype piece = Piece (piece_type: piece_type) (color: bool)

datatype move =
  Move (from_square: square) (to_square: square) (promotion: "piece_type option")
    (drop_piece: "piece_type option")

text \<open>
  The three coordinate functions of the library, as it defines them:
  \<open>square_file(square) = square & 7\<close>, \<open>square_rank(square) = square >> 3\<close> and
  \<open>square(file_index, rank_index) = rank_index * 8 + file_index\<close>.
\<close>

definition square_file :: "square \<Rightarrow> int" where
  "square_file sq = sq AND 7"

definition square_rank :: "square \<Rightarrow> int" where
  "square_rank sq = drop_bit 3 sq"

definition square :: "int \<Rightarrow> int \<Rightarrow> square" where
  "square file_index rank_index = rank_index * 8 + file_index"

section \<open>Board geometry of the window\<close>

definition WIDTH :: int where
  "WIDTH = 480"

definition HEIGHT :: int where
  "HEIGHT = 480"

definition SQUARE_SIZE :: int where
  "SQUARE_SIZE = WIDTH div 8"

text \<open>\<open>ChessGame.square_to_pos\<close>: the top-left pixel of a square; rank 8 is drawn on top.\<close>

definition square_to_pos :: "square \<Rightarrow> int \<times> int" where
  "square_to_pos sq =
     (let file_idx = square_file sq;
          rank_idx = 7 - square_rank sq
      in (file_idx * SQUARE_SIZE, rank_idx * SQUARE_SIZE))"

text \<open>
  \<open>ChessGame.pos_to_square\<close>: the square under a pixel, \<open>None\<close> outside the board.
  Python's \<open>//\<close> is floor division, as \<open>div\<close> on \<open>int\<close> is.
\<close>

definition pos_to_square :: "int \<times> int \<Rightarrow> square option" where
  "pos_to_square pos =
     (case pos of (x, y) \<Rightarrow>
        (let file_idx = x div SQUARE_SIZE;
             rank_idx = 7 - (y div SQUARE_SIZE)
         in if 0 \<le> file_idx \<and> file_idx \<le> 7 \<and> 0 \<le> rank_idx \<and> rank_idx \<le> 7
            then Some (square file_idx rank_idx)
            else None))"

section \<open>Python strings\<close>

text \<open>
  A Python \<open>str\<close> is modelled as a list of characters with code points below 256.
  \<open>py_isspace\<close> holds of the code points below 256 that \<open>str.isspace\<close>, \<open>str.strip()\<close> and
  \<open>str.split()\<close> treat as whitespace; \<open>py_lower_char\<close> is \<open>str.lower\<close> on one such
  character (the ASCII capitals and the Latin-1 capitals, the multiplication sign apart).
\<close>

definition py_isspace :: "char \<Rightarrow> bool" where
  "py_isspace c =
     (let n = (of_char c :: nat)
      in (9 \<le> n \<and> n \<le> 13) \<or> (28 \<le> n \<and> n \<le> 32) \<or> n = 133 \<or> n = 160)"

definition py_lower_char :: "char \<Rightarrow> char" where
  "py_lower_char c =
     (let n = (of_char c :: nat)
      in if (65 \<le> n \<and> n \<le> 90) \<or> (192 \<le> n \<and> n \<le> 222 \<and> n \<noteq> 215)
         then char_of (n + 32) else c)"

definition py_lower :: "string \<Rightarrow> string" where
  "py_lower s = map py_lower_char s"

definition py_upper_char :: "char \<Rightarrow> char" where
  "py_upper_char c =
     (let n = (of_char c :: nat)
      in if 97 \<le> n \<and> n \<le> 122 then char_of (n - 32) else c)"

definition py_lstrip :: "string \<Rightarrow> string" where
  "py_lstrip s = dropWhile py_isspace s"

definition py_rstrip :: "string \<Rightarrow> string" where
  "py_rstrip s = rev (dropWhile py_isspace (rev s))"

definition py_strip :: "string \<Rightarrow> string" where
  "py_strip s = py_rstrip (py_lstrip s)"

text \<open>\<open>str.split()\<close> with no argument: the maximal runs of non-whitespace characters.\<close>

function py_split :: "string \<Rightarrow> string list" where
  "py_split s =
     (case dropWhile py_isspace s of
        [] \<Rightarrow> []
      | c # cs \<Rightarrow>
          takeWhile (\<lambda>x. \<not> py_isspace x) (c # cs)
            # py_split (dropWhile (\<lambda>x. \<not> py_isspace x) (c # cs)))"
  by pat_completeness auto
termination
proof (relation "measure length")
  show "wf (measure length)"
    by simp
next
  fix s :: string and c :: char and cs :: string
  assume d: "dropWhile py_isspace s = c # cs"
  have "\<not> py_isspace c"
    using d hd_dropWhile [of py_isspace s] by simp
  then have "length (dropWhile (\<lambda>x. \<not> py_isspace x) (c # cs)) \<le> length cs"
    by (simp add: length_dropWhile_le)
  moreover have "length (c # cs) \<le> length s"
    using d length_dropWhile_le [of py_isspace s] by simp
  ultimately show "(dropWhile (\<lambda>x. \<not> py_isspace x) (c # cs), s) \<in> measure length"
    by simp
qed

declare py_split.simps [simp del]

text \<open>\<open>sep.join(xs)\<close>.\<close>

fun py_join :: "string \<Rightarrow> string list \<Rightarrow> string" where
  "py_join sep [] = []"
| "py_join sep [x] = x"
| "py_join sep (x # y # ys) = x @ sep @ py_join sep (y # ys)"

text \<open>\<open>xs.index(x)\<close>: the first position of \<open>x\<close>, \<open>None\<close> where Python raises ValueError.\<close>

fun py_index :: "'a list \<Rightarrow> 'a \<Rightarrow> nat option" where
  "py_index [] x = None"
| "py_index (y # ys) x = (if y = x then Some 0 else map_option Suc (py_index ys x))"

section \<open>Exceptions\<close>

text \<open>The exceptions that the modelled code can raise and let escape.\<close>

datatype exn = IndexError | AttributeError | ValueError | InvalidMoveError

section \<open>Moves in UCI notation\<close>

text \<open>
  The library's tables \<open>FILE_NAMES\<close>, \<open>RANK_NAMES\<close>, \<open>SQUARE_NAMES\<close> and \<open>PIECE_SYMBOLS\<close>
  (whose entry 0 is \<open>None\<close>), and its \<open>Move.uci\<close> and \<open>Move.from_uci\<close>. The squares of a
  move that the library generates lie between 0 and 63; \<open>square_name\<close> is the empty
  string elsewhere.
\<close>

definition FILE_NAMES :: "char list" where
  "FILE_NAMES = ''abcdefgh''"

definition RANK_NAMES :: "char list" where
  "RANK_NAMES = ''12345678''"

definition SQUARE_NAMES :: "string list" where
  "SQUARE_NAMES = concat (map (\<lambda>r. map (\<lambda>f. [f, r]) FILE_NAMES) RANK_NAMES)"

definition square_name :: "square \<Rightarrow> string" where
  "square_name sq = (if 0 \<le> sq \<and> sq \<le> 63 then SQUARE_NAMES ! nat sq else [])"

definition PIECE_TYPES :: "piece_type list" where
  "PIECE_TYPES = [PAWN, KNIGHT, BISHOP, ROOK, QUEEN, KING]"

fun piece_symbol_of :: "piece_type \<Rightarrow> char" where
  "piece_symbol_of PAWN = CHR ''p''"
| "piece_symbol_of KNIGHT = CHR ''n''"
| "piece_symbol_of BISHOP = CHR ''b''"
| "piece_symbol_of ROOK = CHR ''r''"
| "piece_symbol_of QUEEN = CHR ''q''"
| "piece_symbol_of KING = CHR ''k''"

text \<open>\<open>PIECE_SYMBOLS.index(c)\<close> as a piece type.\<close>

definition piece_type_of_symbol :: "char \<Rightarrow> piece_type option" where
  "piece_type_of_symbol c =
     map_option (\<lambda>i. PIECE_TYPES ! i) (py_index (map piece_symbol_of PIECE_TYPES) c)"

text \<open>\<open>Piece.symbol\<close>, which \<open>str(piece)\<close> returns: upper case for a white piece.\<close>

definition symbol :: "piece \<Rightarrow> string" where
  "symbol pc =
     (if color pc then [py_upper_char (piece_symbol_of (piece_type pc))]
      else [piece_symbol_of (piece_type pc)])"

text \<open>\<open>bool(move)\<close>: false for the null move only.\<close>

definition move_bool :: "move \<Rightarrow> bool" where
  "move_bool m =
     (\<not> (from_square m = 0 \<and> to_square m = 0 \<and> promotion m = None \<and> drop_piece m = None))"

definition uci :: "move \<Rightarrow> string" where
  "uci m =
     (case drop_piece m of
        Some d \<Rightarrow> py_upper_char (piece_symbol_of d) # CHR ''@'' # square_name (to_square m)
      | None \<Rightarrow>
          (case promotion m of
             Some p \<Rightarrow>
               square_name (from_square m) @ square_name (to_square m) @ [piece_symbol_of p]
           | None \<Rightarrow>
               if move_bool m then square_name (from_square m) @ square_name (to_square m)
               else ''0000''))"

definition from_uci :: "string \<Rightarrow> exn + move" where
  "from_uci u =
     (if u = ''0000'' then Inr (Move 0 0 None None)
      else if length u = 4 \<and> u ! 1 = CHR ''@'' then
        (case (piece_type_of_symbol (py_lower_char (u ! 0)), py_index SQUARE_NAMES (drop 2 u)) of
           (Some d, Some sq) \<Rightarrow> Inr (Move (int sq) (int sq) None (Some d))
         | _ \<Rightarrow> Inl InvalidMoveError)
      else if 4 \<le> length u \<and> length u \<le> 5 then
        (case (py_index SQUARE_NAMES (take 2 u), py_index SQUARE_NAMES (take 2 (drop 2 u))) of
           (Some f, Some t) \<Rightarrow>
             (if length u = 5 then
                (case piece_type_of_symbol (u ! 4) of
                   None \<Rightarrow> Inl InvalidMoveError
                 | Some p \<Rightarrow>
                     if f = t then Inl InvalidMoveError
                     else Inr (Move (int f) (int t) (Some p) None))
              else if f = t then Inl InvalidMoveError
              else Inr (Move (int f) (int t) None None))
         | _ \<Rightarrow> Inl InvalidMoveError)
      else Inl InvalidMoveError)"

section \<open>The rules engine\<close>

text \<open>
  The board object of the library is outside the repository. The program reads it
  through the operations below, which the model takes as a parameter: \<open>piece_at\<close>,
  \<open>turn\<close>, the list that iterating \<open>board.legal_moves\<close> yields, \<open>push\<close> (which applies a
  move without checking it), \<open>is_game_over\<close>, \<open>result\<close>, \<open>fen\<close>, the constructor from a FEN string
  (\<open>None\<close> where it raises ValueError) and the starting position \<open>chess.Board()\<close>.
\<close>

record 'b rules =
  piece_at :: "'b \<Rightarrow> square \<Rightarrow> piece option"
  turn :: "'b \<Rightarrow> bool"
  board_legal_moves :: "'b \<Rightarrow> move list"
  push :: "'b \<Rightarrow> move \<Rightarrow> 'b"
  is_game_over :: "'b \<Rightarrow> bool"
  result :: "'b \<Rightarrow> string"
  fen :: "'b \<Rightarrow> string"
  board_of_fen :: "string \<Rightarrow> 'b option"
  starting_board :: "'b"

section \<open>The move suggestion service\<close>

text \<open>
  A JSON value; a number keeps its literal text. The service is reached by one
  \<open>requests.post\<close>: it raises a \<open>RequestException\<close> (connection failure, timeout), or
  returns a response with a status code and a body, whose \<open>json()\<close> is a value or raises
  a \<open>JSONDecodeError\<close> (\<open>None\<close> in the model).
\<close>

datatype json =
  JNull | JBool bool | JNumber string | JStr string | JArr "json list"
  | JObj "(string \<times> json) list"

record http_request =
  url :: string
  content_type :: string
  data :: json
  timeout :: nat

datatype http_result = RequestException | Response int "json option"

definition newline :: string where
  "newline = [CHR 0x0A]"

definition make_prompt :: "string \<Rightarrow> string list \<Rightarrow> string" where
  "make_prompt fen_text legal =
     ''Current chess position FEN: '' @ fen_text @ newline @ newline
     @ ''Legal moves in UCI format: '' @ py_join '', '' legal @ newline @ newline
     @ ''You are a chess engine. Choose one move from the legal moves list above.'' @ newline
     @ ''Rules:'' @ newline
     @ ''1. Respond ONLY with a single UCI move from the legal moves list'' @ newline
     @ ''2. Do not add any explanation or analysis'' @ newline
     @ ''3. The move must be exactly as shown in the legal moves list'' @ newline
     @ ''4. Do not make up moves - use only moves from the provided list'' @ newline @ newline
     @ ''Choose one move:''"

definition make_request :: "string \<Rightarrow> http_request" where
  "make_request prompt =
     \<lparr> url = ''http://localhost:11434/api/generate'',
       content_type = ''application/json'',
       data = JObj [(''model'', JStr ''llama3.2''), (''prompt'', JStr prompt),
                    (''stream'', JBool False), (''temperature'', JNumber ''0.1'')],
       timeout = 10 \<rparr>"

text \<open>
  \<open>response.json().get("response", "")\<close>: only a dict has \<open>get\<close>; the other values raise
  AttributeError, which the function does not catch.
\<close>

definition json_get :: "json \<Rightarrow> string \<Rightarrow> json \<Rightarrow> exn + json" where
  "json_get j k dflt =
     (case j of
        JObj kvs \<Rightarrow> (case map_of kvs k of None \<Rightarrow> Inr dflt | Some v \<Rightarrow> Inr v)
      | _ \<Rightarrow> Inl AttributeError)"

text \<open>
  The text of the answer after \<open>.strip().lower()\<close> and \<open>.split()[0]\<close>: only a string has
  \<open>strip\<close> (AttributeError otherwise), and the first element of an empty list raises
  IndexError.
\<close>

definition first_word :: "json \<Rightarrow> exn + string" where
  "first_word v =
     (case v of
        JStr text \<Rightarrow>
          (case py_split (py_lower (py_strip text)) of
             [] \<Rightarrow> Inl IndexError
           | w # ws \<Rightarrow> Inr w)
      | _ \<Rightarrow> Inl AttributeError)"

text \<open>
  The specification's wording of the candidate move, for comparison with \<open>first_word\<close>:
  the first whitespace-delimited token of the answer, lower-cased.
\<close>

definition first_token_lower :: "string \<Rightarrow> string" where
  "first_token_lower text =
     py_lower (takeWhile (\<lambda>c. \<not> py_isspace c) (dropWhile py_isspace text))"

text \<open>
  \<open>ChessGame.get_ai_move\<close>. The result is what the call returns (\<open>Inr None\<close> for Python's
  \<open>None\<close>) or the exception that escapes it, together with the requests it posted. The
  \<open>except\<close> clause catches \<open>RequestException\<close>, \<open>KeyError\<close> and \<open>JSONDecodeError\<close> only. The
  lines it logs are left out.
\<close>

definition get_ai_move ::
  "'b rules \<Rightarrow> (http_request \<Rightarrow> http_result) \<Rightarrow> string
     \<Rightarrow> (exn + string option) \<times> http_request list" where
  "get_ai_move R post fen_text =
     (case board_of_fen R fen_text of
        None \<Rightarrow> (Inl ValueError, [])
      | Some b \<Rightarrow>
          (let legal = map uci (board_legal_moves R b)
           in if legal = [] then (Inr None, [])
              else
                (let req = make_request (make_prompt fen_text legal)
                 in (case post req of
                       RequestException \<Rightarrow> Inr None
                     | Response status_code body \<Rightarrow>
                         if status_code \<noteq> 200 then Inr None
                         else
                           (case body of
                              None \<Rightarrow> Inr None
                            | Some j \<Rightarrow>
                                (case json_get j ''response'' (JStr []) of
                                   Inl e \<Rightarrow> Inl e
                                 | Inr v \<Rightarrow>
                                     (case first_word v of
                                        Inl e \<Rightarrow> Inl e
                                      | Inr mv \<Rightarrow>
                                          if mv \<notin> set legal then Inr None
                                          else Inr (Some mv)))),
                     [req]))))"

section \<open>The session\<close>

text \<open>
  The game record \<open>self.game\<close> is the library's PGN game: headers and the moves added
  so far. \<open>self.node\<close> is always the last node of that single line, so
  \<open>self.node.add_variation(move)\<close> appends to \<open>mainline\<close>.
\<close>

record pgn_game =
  headers :: "(string \<times> string) list"
  mainline :: "move list"

text \<open>
  The world outside the process. A file holds the printed game, or is left incomplete
  when writing failed after \<open>open\<close>. The \<open>n\<close>-th call of \<open>save_game\<close> reads the clock
  (\<open>timestamp n\<close>, already formatted) and meets the disk in the condition \<open>disk n\<close>:
  everything works, or an \<open>IOError\<close> with a message is raised by \<open>os.makedirs\<close> or
  \<open>open\<close>, or by the write after the file was opened.
\<close>

datatype file_content = Written pgn_game | Incomplete

datatype level = INFO | ERROR

datatype disk_outcome = DiskOk | FailsBeforeOpen string | FailsAfterOpen string

record environment =
  timestamp :: "nat \<Rightarrow> string"
  disk :: "nat \<Rightarrow> disk_outcome"

text \<open>
  The fields of \<open>ChessGame\<close> that the event handling reads and writes, the files under
  \<open>games/\<close>, the lines logged by the modelled methods, and the number of calls of
  \<open>save_game\<close> made so far (\<open>save_calls\<close>, which the program itself does not keep).
\<close>

record 'b chess_game =
  board :: "'b"
  game :: pgn_game
  selected_square :: "square option"
  dragging :: bool
  drag_piece :: "string option"
  drag_pos :: "(int \<times> int) option"
  legal_moves :: "move set"
  files :: "string \<Rightarrow> file_content option"
  log_lines :: "(level \<times> string) list"
  save_calls :: nat

text \<open>
  \<open>ChessGame.__init__\<close>, without the window and the images: \<open>date\<close> is today's date as
  formatted for the header and \<open>fs\<close> the files left after \<open>_clear_games_folder\<close>.
\<close>

definition new_game :: "'b rules \<Rightarrow> string \<Rightarrow> (string \<Rightarrow> file_content option) \<Rightarrow> 'b chess_game" where
  "new_game R date fs =
     \<lparr> board = starting_board R,
       game = \<lparr> headers = [(''Event'', ''?''), (''Site'', ''?''), (''Date'', date),
                           (''Round'', ''?''), (''White'', ''Player''), (''Black'', ''AI''),
                           (''Result'', ''*'')],
                mainline = [] \<rparr>,
       selected_square = None,
       dragging = False,
       drag_piece = None,
       drag_pos = None,
       legal_moves = {},
       files = fs,
       log_lines = [],
       save_calls = 0 \<rparr>"

definition save_game_filename :: "environment \<Rightarrow> nat \<Rightarrow> string" where
  "save_game_filename env n = ''games/game_'' @ timestamp env n @ ''.pgn''"

text \<open>
  The \<open>try\<close> block of \<open>ChessGame.save_game\<close>: \<open>Inl\<close> carries the message of the
  \<open>IOError\<close> it raises and the state at that point.
\<close>

definition save_game_try ::
  "environment \<Rightarrow> 'b chess_game \<Rightarrow> (string \<times> 'b chess_game) + 'b chess_game" where
  "save_game_try env st =
     (let n = save_calls st;
          filename = save_game_filename env n;
          st0 = st\<lparr>save_calls := n + 1\<rparr>
      in case disk env n of
           FailsBeforeOpen msg \<Rightarrow> Inl (msg, st0)
         | FailsAfterOpen msg \<Rightarrow> Inl (msg, st0\<lparr>files := (files st)(filename \<mapsto> Incomplete)\<rparr>)
         | DiskOk \<Rightarrow>
             Inr (st0\<lparr>files := (files st)(filename \<mapsto> Written (game st)),
                      log_lines := log_lines st @ [(INFO, ''Game saved to '' @ filename)]\<rparr>))"

text \<open>\<open>ChessGame.save_game\<close>: the \<open>except IOError\<close> clause logs the failure and returns.\<close>

definition save_game :: "environment \<Rightarrow> 'b chess_game \<Rightarrow> 'b chess_game" where
  "save_game env st =
     (case save_game_try env st of
        Inr st' \<Rightarrow> st'
      | Inl (msg, st') \<Rightarrow>
          st'\<lparr>log_lines := log_lines st' @ [(ERROR, ''Failed to save game: '' @ msg)]\<rparr>)"

text \<open>\<open>ChessGame.make_move\<close>.\<close>

definition make_move :: "'b rules \<Rightarrow> environment \<Rightarrow> move \<Rightarrow> 'b chess_game \<Rightarrow> 'b chess_game" where
  "make_move R env mv st =
     save_game env
       (st\<lparr>board := push R (board st) mv,
           game := (game st)\<lparr>mainline := mainline (game st) @ [mv]\<rparr>\<rparr>)"

text \<open>
  \<open>ChessGame.handle_click\<close>; \<open>cur\<close> is what \<open>pygame.mouse.get_pos()\<close> returns during the
  call.
\<close>

definition handle_click ::
  "'b rules \<Rightarrow> environment \<Rightarrow> int \<times> int \<Rightarrow> int \<times> int \<Rightarrow> 'b chess_game \<Rightarrow> 'b chess_game" where
  "handle_click R env cur pos st =
     (case pos_to_square pos of
        None \<Rightarrow> st
      | Some sq \<Rightarrow>
          (case selected_square st of
             None \<Rightarrow>
               (case piece_at R (board st) sq of
                  None \<Rightarrow> st
                | Some pc \<Rightarrow>
                    if color pc = (turn R (board st) = WHITE_side)
                    then st\<lparr>selected_square := Some sq,
                            legal_moves :=
                              set (filter (\<lambda>m. from_square m = sq)
                                     (board_legal_moves R (board st))),
                            drag_piece := Some (symbol pc),
                            dragging := True,
                            drag_pos := Some cur\<rparr>
                    else st)
           | Some sel \<Rightarrow>
               (let mv = Move sel sq None None;
                    st1 = (if mv \<in> legal_moves st then make_move R env mv st else st)
                in st1\<lparr>selected_square := None,
                       legal_moves := {},
                       dragging := False,
                       drag_piece := None\<rparr>)))"

section \<open>The main loop\<close>

text \<open>
  The pygame events that the loop distinguishes (button and position), each paired with
  the pointer position that \<open>pygame.mouse.get_pos()\<close> gives while it is handled.
\<close>

datatype event =
  QUIT | MOUSEBUTTONDOWN int "int \<times> int" | MOUSEBUTTONUP int "int \<times> int"
  | MOUSEMOTION "int \<times> int" | OTHER_EVENT

text \<open>One round of the \<open>for event in pygame.event.get()\<close> loop, on \<open>running\<close> and the game.\<close>

fun handle_event ::
  "'b rules \<Rightarrow> environment \<Rightarrow> bool \<times> 'b chess_game \<Rightarrow> event \<times> (int \<times> int)
     \<Rightarrow> bool \<times> 'b chess_game" where
  "handle_event R env (running, st) (QUIT, cur) = (False, st)"
| "handle_event R env (running, st) (MOUSEBUTTONDOWN button pos, cur) =
     (if button = 1 then (running, handle_click R env cur pos st) else (running, st))"
| "handle_event R env (running, st) (MOUSEBUTTONUP button pos, cur) =
     (if button = 1
      then (if dragging st then (running, handle_click R env cur pos st) else (running, st))
      else (running, st))"
| "handle_event R env (running, st) (MOUSEMOTION pos, cur) =
     (if dragging st then (running, st\<lparr>drag_pos := Some pos\<rparr>) else (running, st))"
| "handle_event R env (running, st) (OTHER_EVENT, cur) = (running, st)"

definition process_events ::
  "'b rules \<Rightarrow> environment \<Rightarrow> (event \<times> (int \<times> int)) list \<Rightarrow> bool \<times> 'b chess_game
     \<Rightarrow> bool \<times> 'b chess_game" where
  "process_events R env evs c = foldl (handle_event R env) c evs"

text \<open>
  How an iteration of \<open>while running\<close> ends: with \<open>running\<close> still true, with \<open>running\<close>
  false (the loop ends at its next test), or by \<open>break\<close>.
\<close>

datatype control = Running | Stopped | Broken

definition control_of :: "bool \<Rightarrow> control" where
  "control_of running = (if running then Running else Stopped)"

text \<open>The last statement of the loop body: the test for the end of the game.\<close>

definition game_over_check ::
  "'b rules \<Rightarrow> environment \<Rightarrow> bool \<Rightarrow> 'b chess_game \<Rightarrow> control \<times> 'b chess_game" where
  "game_over_check R env running st =
     (if is_game_over R (board st)
      then (let st1 = save_game env st
            in (Stopped,
                st1\<lparr>log_lines :=
                      log_lines st1 @ [(INFO, ''Game Over. Result: '' @ result R (board st1))]\<rparr>))
      else (control_of running, st))"

definition invalid_ai_move :: "'b chess_game \<Rightarrow> control \<times> 'b chess_game" where
  "invalid_ai_move st =
     (Broken,
      st\<lparr>log_lines := log_lines st @ [(ERROR, ''AI returned an invalid move. Ending game.'')]\<rparr>)"

text \<open>
  The part of the loop body after the events: the opponent's move when Black is to move
  and the game is not over, then the test for the end of the game. \<open>post\<close> is the
  suggestion service as it would answer now. An exception that \<open>get_ai_move\<close> or
  \<open>Move.from_uci\<close> lets escape leaves the loop (\<open>Inl\<close>).
\<close>

definition ai_turn ::
  "'b rules \<Rightarrow> environment \<Rightarrow> (http_request \<Rightarrow> http_result) \<Rightarrow> bool \<Rightarrow> 'b chess_game
     \<Rightarrow> exn + control \<times> 'b chess_game" where
  "ai_turn R env post running st =
     (if turn R (board st) = BLACK_side \<and> \<not> is_game_over R (board st)
      then
        (case fst (get_ai_move R post (fen R (board st))) of
           Inl e \<Rightarrow> Inl e
         | Inr None \<Rightarrow> Inr (invalid_ai_move st)
         | Inr (Some ai_move) \<Rightarrow>
             if ai_move = [] then Inr (invalid_ai_move st)
             else
               (case from_uci ai_move of
                  Inl e \<Rightarrow> Inl e
                | Inr mv \<Rightarrow>
                    if mv \<in> set (board_legal_moves R (board st))
                    then Inr (game_over_check R env running (make_move R env mv st))
                    else Inr (invalid_ai_move st)))
      else Inr (game_over_check R env running st))"

text \<open>One iteration of the loop body of \<open>ChessGame._main_loop\<close>, drawing apart.\<close>

definition loop_body ::
  "'b rules \<Rightarrow> environment \<Rightarrow> (event \<times> (int \<times> int)) list \<Rightarrow> (http_request \<Rightarrow> http_result)
     \<Rightarrow> 'b chess_game \<Rightarrow> exn + control \<times> 'b chess_game" where
  "loop_body R env evs post st =
     (case process_events R env evs (True, st) of
        (running, st1) \<Rightarrow> ai_turn R env post running st1)"

text \<open>
  \<open>ChessGame._main_loop\<close> on the inputs of its first iterations (the events and the
  service's answer of each): it stops when the loop has ended, and reports \<open>Running\<close>
  when these inputs are used up.
\<close>

fun main_loop ::
  "'b rules \<Rightarrow> environment \<Rightarrow> ((event \<times> (int \<times> int)) list \<times> (http_request \<Rightarrow> http_result)) list
     \<Rightarrow> 'b chess_game \<Rightarrow> exn + control \<times> 'b chess_game" where
  "main_loop R env [] st = Inr (Running, st)"
| "main_loop R env ((evs, post) # rest) st =
     (case loop_body R env evs post st of
        Inl e \<Rightarrow> Inl e
      | Inr (Running, st1) \<Rightarrow> main_loop R env rest st1
      | Inr (c, st1) \<Rightarrow> Inr (c, st1))"

section \<open>Example positions\<close>

text \<open>
  The worked examples need the answers of the rules engine at a few positions. A sample
  board is a starting point and the moves pushed since: the standard starting position,
  the pawn ending \<open>7k/P7/8/8/8/8/8/K7 w - - 0 1\<close> (White to move, the pawn on a7 can
  promote), and the position \<open>R6k/8/7K/8/8/8/8/8 b - - 0 1\<close> (Black is checkmated).
  \<open>sample_rules\<close> gives the legal moves of chess at the boards that the examples visit
  and no legal move at every other board; pieces move by plain relocation.
\<close>

datatype sample_start = Standard | PawnEnding | Mated

type_synonym sample_board = "sample_start \<times> move list"

definition back_rank :: "piece_type list" where
  "back_rank = [ROOK, KNIGHT, BISHOP, QUEEN, KING, BISHOP, KNIGHT, ROOK]"

fun sample_placement :: "sample_start \<Rightarrow> square \<Rightarrow> piece option" where
  "sample_placement Standard sq =
     (if 0 \<le> sq \<and> sq \<le> 7 then Some (Piece (back_rank ! nat sq) True)
      else if 8 \<le> sq \<and> sq \<le> 15 then Some (Piece PAWN True)
      else if 48 \<le> sq \<and> sq \<le> 55 then Some (Piece PAWN False)
      else if 56 \<le> sq \<and> sq \<le> 63 then Some (Piece (back_rank ! nat (sq - 56)) False)
      else None)"
| "sample_placement PawnEnding sq =
     (if sq = 0 then Some (Piece KING True)
      else if sq = 48 then Some (Piece PAWN True)
      else if sq = 63 then Some (Piece KING False)
      else None)"
| "sample_placement Mated sq =
     (if sq = 56 then Some (Piece ROOK True)
      else if sq = 47 then Some (Piece KING True)
      else if sq = 63 then Some (Piece KING False)
      else None)"

definition relocate :: "(square \<Rightarrow> piece option) \<Rightarrow> move \<Rightarrow> square \<Rightarrow> piece option" where
  "relocate f mv =
     (f(to_square mv :=
          (case promotion mv of
             None \<Rightarrow> f (from_square mv)
           | Some p \<Rightarrow> map_option (\<lambda>pc. Piece p (color pc)) (f (from_square mv)))))
       (from_square mv := None)"

definition sample_piece_at :: "sample_board \<Rightarrow> square \<Rightarrow> piece option" where
  "sample_piece_at b = foldl relocate (sample_placement (fst b)) (snd b)"

definition sample_turn :: "sample_board \<Rightarrow> bool" where
  "sample_turn b = ((fst b \<noteq> Mated) = even (length (snd b)))"

text \<open>A move written in UCI notation (the null move for a text that is not one).\<close>

definition mv_of :: "string \<Rightarrow> move" where
  "mv_of u = (case from_uci u of Inr mv \<Rightarrow> mv | Inl e \<Rightarrow> Move 0 0 None None)"

definition sample_legal_moves :: "sample_board \<Rightarrow> move list" where
  "sample_legal_moves b =
     (if b = (Standard, []) then
        map mv_of
          [''g1h3'', ''g1f3'', ''b1c3'', ''b1a3'', ''h2h3'', ''g2g3'', ''f2f3'', ''e2e3'',
           ''d2d3'', ''c2c3'', ''b2b3'', ''a2a3'', ''h2h4'', ''g2g4'', ''f2f4'', ''e2e4'',
           ''d2d4'', ''c2c4'', ''b2b4'', ''a2a4'']
      else if b = (Standard, [mv_of ''e2e4'']) then
        map mv_of
          [''g8h6'', ''g8f6'', ''b8c6'', ''b8a6'', ''h7h6'', ''g7g6'', ''f7f6'', ''e7e6'',
           ''d7d6'', ''c7c6'', ''b7b6'', ''a7a6'', ''h7h5'', ''g7g5'', ''f7f5'', ''e7e5'',
           ''d7d5'', ''c7c5'', ''b7b5'', ''a7a5'']
      else if b = (Standard, [mv_of ''e2e4'', mv_of ''d7d5'']) then
        map mv_of
          [''g1h3'', ''g1f3'', ''g1e2'', ''f1a6'', ''f1b5'', ''f1c4'', ''f1d3'', ''f1e2'',
           ''e1e2'', ''d1h5'', ''d1g4'', ''d1f3'', ''d1e2'', ''b1c3'', ''b1a3'', ''e4d5'',
           ''e4e5'', ''h2h3'', ''g2g3'', ''f2f3'', ''d2d3'', ''c2c3'', ''b2b3'', ''a2a3'',
           ''h2h4'', ''g2g4'', ''f2f4'', ''d2d4'', ''c2c4'', ''b2b4'', ''a2a4'']
      else if b = (PawnEnding, []) then
        map mv_of [''a1b2'', ''a1a2'', ''a1b1'', ''a7a8q'', ''a7a8r'', ''a7a8b'', ''a7a8n'']
      else [])"

definition sample_fen :: "sample_board \<Rightarrow> string" where
  "sample_fen b =
     (if b = (Standard, []) then
        ''rnbqkbnr/pppppppp/8/8/8/8/PPPPPPPP/RNBQKBNR w KQkq - 0 1''
      else if b = (Standard, [mv_of ''e2e4'']) then
        ''rnbqkbnr/pppppppp/8/8/4P3/8/PPPP1PPP/RNBQKBNR b KQkq - 0 1''
      else if b = (Standard, [mv_of ''e2e4'', mv_of ''d7d5'']) then
        ''rnbqkbnr/ppp1pppp/8/3p4/4P3/8/PPPP1PPP/RNBQKBNR w KQkq - 0 2''
      else if b = (PawnEnding, []) then ''7k/P7/8/8/8/8/8/K7 w - - 0 1''
      else if b = (Mated, []) then ''R6k/8/7K/8/8/8/8/8 b - - 0 1''
      else [])"

definition sample_boards :: "sample_board list" where
  "sample_boards =
     [(Standard, []), (Standard, [mv_of ''e2e4'']),
      (Standard, [mv_of ''e2e4'', mv_of ''d7d5'']), (PawnEnding, []), (Mated, [])]"

definition sample_board_of_fen :: "string \<Rightarrow> sample_board option" where
  "sample_board_of_fen text = find (\<lambda>b. sample_fen b = text) sample_boards"

definition sample_rules :: "sample_board rules" where
  "sample_rules =
     \<lparr> piece_at = sample_piece_at,
       turn = sample_turn,
       board_legal_moves = sample_legal_moves,
       push = (\<lambda>b mv. (fst b, snd b @ [mv])),
       is_game_over = (\<lambda>b. sample_legal_moves b = []),
       result = (\<lambda>b. if b = (Mated, []) then ''1-0'' else ''*''),
       fen = sample_fen,
       board_of_fen = sample_board_of_fen,
       starting_board = (Standard, []) \<rparr>"

text \<open>
  An environment in which every save works and the clock gives a fresh timestamp per
  call, one in which the first save fails, and a service that answers with a fixed text.
\<close>

definition stamp :: "nat \<Rightarrow> string" where
  "stamp n = ''20240101_0000'' @ [char_of (48 + n div 10 mod 10), char_of (48 + n mod 10)]"

definition good_disk :: environment where
  "good_disk = \<lparr> timestamp = stamp, disk = (\<lambda>n. DiskOk) \<rparr>"

definition bad_then_good_disk :: environment where
  "bad_then_good_disk =
     \<lparr> timestamp = stamp,
       disk = (\<lambda>n. if n = 0 then FailsBeforeOpen ''Permission denied'' else DiskOk) \<rparr>"

definition answers :: "string \<Rightarrow> http_request \<Rightarrow> http_result" where
  "answers text req = Response 200 (Some (JObj [(''response'', JStr text)]))"

definition sample_game :: "sample_board \<Rightarrow> sample_board chess_game" where
  "sample_game b = (new_game sample_rules ''2024.01.01'' Map.empty)\<lparr>board := b\<rparr>"

section \<open>Selections and attempts\<close>

text \<open>
  \<open>own_piece\<close> is the test of \<open>handle_click\<close> for a selection: the square holds a piece
  whose colour is that of the side to move. \<open>selection_ok\<close> says that the selected
  square, if there is one, holds such a piece.
\<close>

definition own_piece :: "'b rules \<Rightarrow> 'b chess_game \<Rightarrow> square \<Rightarrow> bool" where
  "own_piece R st sq =
     (case piece_at R (board st) sq of
        None \<Rightarrow> False
      | Some pc \<Rightarrow> color pc = (turn R (board st) = WHITE_side))"

definition selection_ok :: "'b rules \<Rightarrow> 'b chess_game \<Rightarrow> bool" where
  "selection_ok R st =
     (case selected_square st of None \<Rightarrow> True | Some sq \<Rightarrow> own_piece R st sq)"

text \<open>
  A second click attempts the move from the selected square to the clicked square, with
  no promotion piece. The attempt is accepted when that move is in the set kept at
  selection time and rejected when it is not; an event \<open>commits\<close> when it reaches
  \<open>handle_click\<close> with an accepted attempt, and \<open>all_rejected\<close> holds of a sequence of
  events none of which commits in the state it is handled in.
\<close>

definition attempt_accepted :: "'b chess_game \<Rightarrow> int \<times> int \<Rightarrow> bool" where
  "attempt_accepted st pos =
     (case (selected_square st, pos_to_square pos) of
        (Some sel, Some sq) \<Rightarrow> Move sel sq None None \<in> legal_moves st
      | _ \<Rightarrow> False)"

definition attempt_rejected :: "'b chess_game \<Rightarrow> int \<times> int \<Rightarrow> bool" where
  "attempt_rejected st pos =
     (case (selected_square st, pos_to_square pos) of
        (Some sel, Some sq) \<Rightarrow> Move sel sq None None \<notin> legal_moves st
      | _ \<Rightarrow> False)"

fun commits :: "'b chess_game \<Rightarrow> event \<Rightarrow> bool" where
  "commits st (MOUSEBUTTONDOWN button pos) = (button = 1 \<and> attempt_accepted st pos)"
| "commits st (MOUSEBUTTONUP button pos) = (button = 1 \<and> dragging st \<and> attempt_accepted st pos)"
| "commits st ev = False"

fun all_rejected ::
  "'b rules \<Rightarrow> environment \<Rightarrow> 'b chess_game \<Rightarrow> (event \<times> (int \<times> int)) list \<Rightarrow> bool" where
  "all_rejected R env st [] = True"
| "all_rejected R env st (e # es) =
     (\<not> commits st (fst e) \<and> all_rejected R env (snd (handle_event R env (True, st) e)) es)"

section \<open>Example runs\<close>

text \<open>
  An example: in the starting position the pawn on e2 is selected and released on e5,
  twice.
\<close>

definition e2_selected :: "sample_board chess_game" where
  "e2_selected =
     snd (process_events sample_rules good_disk
            [(MOUSEBUTTONDOWN 1 (250, 370), (250, 370))] (True, sample_game (Standard, [])))"

definition clicks_e2_e5_twice :: "(event \<times> (int \<times> int)) list" where
  "clicks_e2_e5_twice =
     [(MOUSEBUTTONDOWN 1 (250, 370), (250, 370)), (MOUSEBUTTONUP 1 (250, 190), (250, 190)),
      (MOUSEBUTTONDOWN 1 (250, 370), (250, 370)), (MOUSEBUTTONUP 1 (250, 190), (250, 190))]"

text \<open>
  \<open>summary\<close> reads off the result of an iteration how the loop goes on, the board, the
  moves of the game record, the selected square and the number of calls of
  \<open>save_game\<close> so far.
\<close>

definition clicks_e2_e4 :: "(event \<times> (int \<times> int)) list" where
  "clicks_e2_e4 =
     [(MOUSEBUTTONDOWN 1 (250, 370), (250, 370)), (MOUSEBUTTONUP 1 (250, 250), (250, 250))]"

definition summary :: "exn + control \<times> sample_board chess_game
    \<Rightarrow> exn + control \<times> sample_board \<times> move list \<times> square option \<times> nat" where
  "summary r =
     (case r of
        Inl e \<Rightarrow> Inl e
      | Inr (c, st) \<Rightarrow>
          Inr (c, board st, mainline (game st), selected_square st, save_calls st))"

text \<open>The pawn ending with the pawn on a7 selected by a click.\<close>

definition a7_selected :: "sample_board chess_game" where
  "a7_selected =
     snd (process_events sample_rules good_disk
            [(MOUSEBUTTONDOWN 1 (5, 65), (5, 65))] (True, sample_game (PawnEnding, [])))"

text \<open>
  Three clicks handled in one iteration: e2 is selected, the pawn is released on e4, and
  (Black now being to move) the pawn on e7 is selected. The service then answers
  \<open>d7d5\<close>.
\<close>

definition clicks_e2_e4_e7 :: "(event \<times> (int \<times> int)) list" where
  "clicks_e2_e4_e7 =
     [(MOUSEBUTTONDOWN 1 (250, 370), (250, 370)), (MOUSEBUTTONUP 1 (250, 250), (250, 250)),
      (MOUSEBUTTONDOWN 1 (250, 70), (250, 70))]"

definition after_d7d5 :: "sample_board chess_game" where
  "after_d7d5 =
     (case loop_body sample_rules good_disk clicks_e2_e4_e7 (answers ''d7d5'')
             (sample_game (Standard, [])) of
        Inr (c, st) \<Rightarrow> st
      | Inl e \<Rightarrow> sample_game (Standard, []))"

section \<open>Coordinate round trip\<close>

lemma square_file_mod: "square_file sq = sq mod 8"
proof -
  have "sq AND 7 = take_bit 3 sq"
    by (simp add: take_bit_eq_mask mask_eq_exp_minus_1)
  then show ?thesis
    by (simp add: square_file_def take_bit_eq_mod)
qed

lemma square_rank_div: "square_rank sq = sq div 8"
  by (simp add: square_rank_def drop_bit_eq_div)

lemma SQUARE_SIZE_60: "SQUARE_SIZE = 60"
  by (simp add: SQUARE_SIZE_def WIDTH_def)

text \<open>
  Claim C9. For every square \<open>s\<close> from 0 to 63, mapping the square to its screen position
  and the position back to a square gives \<open>s\<close> again:
  \<open>pos_to_square (square_to_pos s) = s\<close>.
\<close>

theorem pos_to_square_square_to_pos:
  assumes "0 \<le> s" and "s \<le> 63"
  shows "pos_to_square (square_to_pos s) = Some s"
proof -
  have f: "0 \<le> s mod 8 \<and> s mod 8 \<le> 7"
    by presburger
  have r: "0 \<le> s div 8 \<and> s div 8 \<le> 7"
    using assms by presburger
  have recompose: "s div 8 * 8 + s mod 8 = s"
    by presburger
  show ?thesis
    using f r recompose
    by (simp add: pos_to_square_def square_to_pos_def square_def square_file_mod
        square_rank_div SQUARE_SIZE_60 Let_def)
qed

theorem pos_to_square_square_to_pos_witness:
  "(0::int) \<le> 28 \<and> (28::int) \<le> 63 \<and> pos_to_square (square_to_pos 28) = Some 28"
  using pos_to_square_square_to_pos [of 28] by simp

section \<open>The first word of the answer\<close>

lemma py_isspace_lower: "py_isspace (py_lower_char c) = py_isspace c"
proof -
  let ?n = "of_char c :: nat"
  show ?thesis
  proof (cases "(65 \<le> ?n \<and> ?n \<le> 90) \<or> (192 \<le> ?n \<and> ?n \<le> 222 \<and> ?n \<noteq> 215)")
    case True
    then have small: "?n + 32 < 256" by arith
    have "of_char (py_lower_char c) = ?n + 32"
      using True small by (simp add: py_lower_char_def Let_def)
    then show ?thesis
      using True by (auto simp add: py_isspace_def Let_def)
  next
    case False
    then have "py_lower_char c = c"
      unfolding py_lower_char_def Let_def by (simp only: if_False)
    then show ?thesis
      by simp
  qed
qed

lemma dropWhile_space_lower:
  "dropWhile py_isspace (py_lower s) = py_lower (dropWhile py_isspace s)"
  by (induction s) (simp_all add: py_lower_def py_isspace_lower)

lemma takeWhile_word_lower:
  "takeWhile (\<lambda>c. \<not> py_isspace c) (py_lower s) = py_lower (takeWhile (\<lambda>c. \<not> py_isspace c) s)"
  by (induction s) (simp_all add: py_lower_def py_isspace_lower)

lemma py_rstrip_Cons: "\<not> py_isspace c \<Longrightarrow> py_rstrip (c # r) = c # py_rstrip r"
  by (simp add: py_rstrip_def dropWhile_append)

lemma py_rstrip_split: "\<exists>t. w = py_rstrip w @ t \<and> list_all py_isspace t"
proof -
  have "rev (takeWhile py_isspace (rev w) @ dropWhile py_isspace (rev w)) = w"
    by simp
  then have "w = py_rstrip w @ rev (takeWhile py_isspace (rev w))"
    unfolding py_rstrip_def rev_append by (rule sym)
  moreover have "list_all py_isspace (rev (takeWhile py_isspace (rev w)))"
    by (simp add: list_all_iff) (meson set_takeWhileD)
  ultimately show ?thesis
    by blast
qed

lemma takeWhile_word_trailing:
  "list_all py_isspace t \<Longrightarrow>
   takeWhile (\<lambda>c. \<not> py_isspace c) (u @ t) = takeWhile (\<lambda>c. \<not> py_isspace c) u"
  by (induction u) (auto simp add: takeWhile_eq_Nil_iff list_all_iff intro: hd_in_set)

lemma takeWhile_word_rstrip:
  "takeWhile (\<lambda>c. \<not> py_isspace c) (py_rstrip w) = takeWhile (\<lambda>c. \<not> py_isspace c) w"
proof -
  obtain t where t: "w = py_rstrip w @ t" "list_all py_isspace t"
    using py_rstrip_split by blast
  show ?thesis
    using takeWhile_word_trailing [OF t(2), of "py_rstrip w"] t(1) by simp
qed

lemma py_strip_blank: "list_all py_isspace s \<Longrightarrow> py_strip s = []"
proof -
  assume "list_all py_isspace s"
  then have "dropWhile py_isspace s = []"
    by (induction s) simp_all
  then show ?thesis
    by (simp only: py_strip_def py_lstrip_def py_rstrip_def dropWhile.simps rev.simps)
qed

lemma py_strip_word:
  assumes "\<not> list_all py_isspace s"
  shows "\<exists>c r. py_strip s = c # r \<and> \<not> py_isspace c
           \<and> takeWhile (\<lambda>x. \<not> py_isspace x) (py_strip s)
               = takeWhile (\<lambda>x. \<not> py_isspace x) (dropWhile py_isspace s)"
proof -
  from assms obtain c r where w: "dropWhile py_isspace s = c # r"
    by (cases "dropWhile py_isspace s") (auto simp add: list_all_iff dropWhile_eq_Nil_conv)
  have c: "\<not> py_isspace c"
    using w hd_dropWhile [of py_isspace s] by simp
  have "py_strip s = c # py_rstrip r"
    using w c by (simp add: py_strip_def py_lstrip_def py_rstrip_Cons)
  moreover have "takeWhile (\<lambda>x. \<not> py_isspace x) (py_strip s)
               = takeWhile (\<lambda>x. \<not> py_isspace x) (dropWhile py_isspace s)"
    by (simp add: py_strip_def py_lstrip_def takeWhile_word_rstrip)
  ultimately show ?thesis
    using c by blast
qed

lemma py_split_Nil: "py_split [] = []"
  by (subst py_split.simps) simp

lemma first_word_blank:
  "list_all py_isspace text \<Longrightarrow> first_word (JStr text) = Inl IndexError"
  by (simp add: first_word_def py_strip_blank py_lower_def py_split_Nil)

lemma first_word_token:
  assumes "\<not> list_all py_isspace text"
  shows "first_word (JStr text) = Inr (first_token_lower text)"
proof -
  obtain c r where s: "py_strip text = c # r" "\<not> py_isspace c"
    and tw: "takeWhile (\<lambda>x. \<not> py_isspace x) (py_strip text)
               = takeWhile (\<lambda>x. \<not> py_isspace x) (dropWhile py_isspace text)"
    using py_strip_word [OF assms] by blast
  have d: "dropWhile py_isspace (py_lower (py_strip text)) = py_lower (py_strip text)"
    using s by (simp add: dropWhile_space_lower)
  have ne: "py_lower (py_strip text) = py_lower_char c # py_lower r"
    using s by (simp add: py_lower_def)
  have "py_split (py_lower (py_strip text))
          = takeWhile (\<lambda>x. \<not> py_isspace x) (py_lower (py_strip text))
              # py_split (dropWhile (\<lambda>x. \<not> py_isspace x) (py_lower (py_strip text)))"
    using d by (subst py_split.simps) (simp add: ne)
  moreover have "takeWhile (\<lambda>x. \<not> py_isspace x) (py_lower (py_strip text))
          = first_token_lower text"
    by (simp add: first_token_lower_def takeWhile_word_lower tw)
  ultimately show ?thesis
    by (simp add: first_word_def)
qed

section \<open>The suggestion service: validation of the answer\<close>

lemma get_ai_move_answer:
  assumes b: "board_of_fen R fen_text = Some b"
    and legal: "board_legal_moves R b \<noteq> []"
    and reply: "post (make_request (make_prompt fen_text (map uci (board_legal_moves R b))))
                  = Response 200 (Some j)"
  shows "fst (get_ai_move R post fen_text) =
           (case json_get j ''response'' (JStr []) of
              Inl e \<Rightarrow> Inl e
            | Inr v \<Rightarrow>
                (case first_word v of
                   Inl e \<Rightarrow> Inl e
                 | Inr mv \<Rightarrow>
                     if mv \<in> set (map uci (board_legal_moves R b)) then Inr (Some mv)
                     else Inr None))"
  using b legal reply
  by (simp add: get_ai_move_def Let_def split: sum.splits)

text \<open>
  Claim C10. For a FEN string that describes a position with no legal move,
  \<open>get_ai_move\<close> returns \<open>None\<close> and posts no request to the suggestion service.
\<close>

theorem get_ai_move_no_legal_moves:
  assumes "board_of_fen R fen_text = Some b"
    and "board_legal_moves R b = []"
  shows "get_ai_move R post fen_text = (Inr None, [])"
  using assms by (simp add: get_ai_move_def)

theorem get_ai_move_no_legal_moves_witness:
  "board_of_fen sample_rules ''R6k/8/7K/8/8/8/8/8 b - - 0 1'' = Some (Mated, [])
   \<and> board_legal_moves sample_rules (Mated, []) = []
   \<and> get_ai_move sample_rules (answers ''h8g8'') ''R6k/8/7K/8/8/8/8/8 b - - 0 1''
       = (Inr None, [])"
proof -
  have b: "board_of_fen sample_rules ''R6k/8/7K/8/8/8/8/8 b - - 0 1'' = Some (Mated, [])"
    by code_simp
  have l: "board_legal_moves sample_rules (Mated, []) = []"
    by (simp add: sample_rules_def sample_legal_moves_def)
  show ?thesis
    using b l get_ai_move_no_legal_moves [OF b l, of "answers ''h8g8''"] by simp
qed

text \<open>
  Claim C5. When the service answers with status 200 and a JSON object whose
  \<open>response\<close> is a text with a non-whitespace character, the candidate move is the first
  whitespace-delimited token of that text, lower-cased; \<open>get_ai_move\<close> returns it if
  and only if it is equal to the UCI text of one of the legal moves, and returns \<open>None\<close>
  for every other token.
\<close>

theorem get_ai_move_first_token:
  assumes "board_of_fen R fen_text = Some b"
    and "board_legal_moves R b \<noteq> []"
    and "post (make_request (make_prompt fen_text (map uci (board_legal_moves R b))))
           = Response 200 (Some (JObj kvs))"
    and "map_of kvs ''response'' = Some (JStr text)"
    and "\<not> list_all py_isspace text"
  shows "fst (get_ai_move R post fen_text) =
           (if first_token_lower text \<in> set (map uci (board_legal_moves R b))
            then Inr (Some (first_token_lower text))
            else Inr None)"
  using get_ai_move_answer [where post = post, OF assms(1) assms(2) assms(3)] assms(4)
    first_word_token [OF assms(5)]
  by (simp add: json_get_def)

theorem get_ai_move_first_token_witness:
  "board_of_fen sample_rules ''rnbqkbnr/pppppppp/8/8/4P3/8/PPPP1PPP/RNBQKBNR b KQkq - 0 1''
     = Some (Standard, [mv_of ''e2e4''])
   \<and> board_legal_moves sample_rules (Standard, [mv_of ''e2e4'']) \<noteq> []
   \<and> \<not> list_all py_isspace '' E7E5 looks best''
   \<and> first_token_lower '' E7E5 looks best'' = ''e7e5''
   \<and> fst (get_ai_move sample_rules (answers '' E7E5 looks best'')
            ''rnbqkbnr/pppppppp/8/8/4P3/8/PPPP1PPP/RNBQKBNR b KQkq - 0 1'')
       = Inr (Some ''e7e5'')"
proof -
  have b: "board_of_fen sample_rules
             ''rnbqkbnr/pppppppp/8/8/4P3/8/PPPP1PPP/RNBQKBNR b KQkq - 0 1''
           = Some (Standard, [mv_of ''e2e4''])"
    by code_simp
  have l: "board_legal_moves sample_rules (Standard, [mv_of ''e2e4'']) \<noteq> []"
    by code_simp
  have r: "answers '' E7E5 looks best''
             (make_request (make_prompt
                ''rnbqkbnr/pppppppp/8/8/4P3/8/PPPP1PPP/RNBQKBNR b KQkq - 0 1''
                (map uci (board_legal_moves sample_rules (Standard, [mv_of ''e2e4''])))))
           = Response 200 (Some (JObj [(''response'', JStr '' E7E5 looks best'')]))"
    by (simp add: answers_def)
  have k: "map_of [(''response'', JStr '' E7E5 looks best'')] ''response''
             = Some (JStr '' E7E5 looks best'')"
    by simp
  have n: "\<not> list_all py_isspace '' E7E5 looks best''"
    by code_simp
  have t: "first_token_lower '' E7E5 looks best'' = ''e7e5''"
    by code_simp
  have m: "''e7e5'' \<in> set (map uci (board_legal_moves sample_rules (Standard, [mv_of ''e2e4''])))"
    by code_simp
  show ?thesis
    using b l n t m
      get_ai_move_first_token [where post = "answers '' E7E5 looks best''", OF b l r k n]
    by simp
qed

text \<open>
  Claim C2. The claim is that a failed, timed-out, non-success or unparseable answer
  (an empty or whitespace-only text included) makes \<open>get_ai_move\<close> return \<open>None\<close>
  instead of raising. For the whitespace-only answer the code raises: \<open>split()\<close> gives
  the empty list, \<open>[0]\<close> raises IndexError, and the \<open>except\<close> clause does not list it.
\<close>

theorem get_ai_move_blank_answer_raises:
  "fst (get_ai_move sample_rules (answers ''   '')
          ''rnbqkbnr/pppppppp/8/8/4P3/8/PPPP1PPP/RNBQKBNR b KQkq - 0 1'')
     = Inl IndexError"
  by code_simp

section \<open>Selecting a piece\<close>

lemma save_game_keeps:
  "board (save_game env st) = board st"
  "game (save_game env st) = game st"
  "selected_square (save_game env st) = selected_square st"
  "dragging (save_game env st) = dragging st"
  "drag_piece (save_game env st) = drag_piece st"
  "drag_pos (save_game env st) = drag_pos st"
  "legal_moves (save_game env st) = legal_moves st"
  "save_calls (save_game env st) = save_calls st + 1"
  by (simp_all add: save_game_def save_game_try_def Let_def split: disk_outcome.splits)

lemma make_move_board:
  "board (make_move R env mv st) = push R (board st) mv"
  "mainline (game (make_move R env mv st)) = mainline (game st) @ [mv]"
  "headers (game (make_move R env mv st)) = headers (game st)"
  "save_calls (make_move R env mv st) = save_calls st + 1"
  by (simp_all add: make_move_def save_game_keeps)

lemma handle_click_off_board:
  "pos_to_square pos = None \<Longrightarrow> handle_click R env cur pos st = st"
  by (simp add: handle_click_def)

lemma handle_click_idle:
  assumes "selected_square st = None" and "pos_to_square pos = Some sq"
  shows "handle_click R env cur pos st =
           (if own_piece R st sq
            then st\<lparr>selected_square := Some sq,
                    legal_moves := set (filter (\<lambda>m. from_square m = sq)
                                          (board_legal_moves R (board st))),
                    drag_piece := Some (symbol (the (piece_at R (board st) sq))),
                    dragging := True,
                    drag_pos := Some cur\<rparr>
            else st)"
proof (cases "piece_at R (board st) sq")
  case None
  then show ?thesis
    using assms by (simp add: handle_click_def own_piece_def)
next
  case (Some pc)
  then show ?thesis
    using assms by (cases "color pc"; cases "turn R (board st)")
      (simp_all add: handle_click_def own_piece_def WHITE_side_def)
qed

lemma handle_click_selected:
  assumes "selected_square st = Some sel" and "pos_to_square pos = Some sq"
  shows "handle_click R env cur pos st =
           (if Move sel sq None None \<in> legal_moves st
            then make_move R env (Move sel sq None None) st
            else st)\<lparr>selected_square := None, legal_moves := {}, dragging := False,
                     drag_piece := None\<rparr>"
  using assms by (simp add: handle_click_def Let_def)

lemma own_piece_board:
  "board st' = board st \<Longrightarrow> own_piece R st' sq = own_piece R st sq"
  by (simp add: own_piece_def split: option.splits)

lemma handle_click_selection_ok:
  assumes "selection_ok R st"
  shows "selection_ok R (handle_click R env cur pos st)"
proof (cases "pos_to_square pos")
  case None
  then show ?thesis
    using assms by (simp add: handle_click_off_board)
next
  case (Some sq)
  show ?thesis
  proof (cases "selected_square st")
    case None
    show ?thesis
    proof (cases "own_piece R st sq")
      case True
      then have "own_piece R (handle_click R env cur pos st) sq"
        using handle_click_idle [OF None Some, of R env cur]
          own_piece_board [of "handle_click R env cur pos st" st R sq]
        by simp
      then show ?thesis
        using True handle_click_idle [OF None Some, of R env cur]
        by (simp add: selection_ok_def)
    next
      case False
      then show ?thesis
        using assms handle_click_idle [OF None Some, of R env cur] by simp
    qed
  next
    case (Some sel)
    show ?thesis
      using handle_click_selected [OF Some \<open>pos_to_square pos = Some sq\<close>, of R env cur]
      by (simp add: selection_ok_def)
  qed
qed

lemma handle_event_selection_ok:
  assumes "selection_ok R (snd c)"
  shows "selection_ok R (snd (handle_event R env c e))"
proof -
  obtain running st where c: "c = (running, st)"
    by (cases c)
  obtain ev cur where e: "e = (ev, cur)"
    by (cases e)
  have "\<And>p sq. own_piece R (st\<lparr>drag_pos := p\<rparr>) sq = own_piece R st sq"
    by (rule own_piece_board) simp
  then have m: "\<And>p. selection_ok R (st\<lparr>drag_pos := p\<rparr>) = selection_ok R st"
    by (simp add: selection_ok_def split: option.splits)
  show ?thesis
    using assms m unfolding c e
    by (cases ev) (simp_all add: handle_click_selection_ok)
qed

lemma process_events_selection_ok:
  "selection_ok R (snd c) \<Longrightarrow> selection_ok R (snd (process_events R env evs c))"
  unfolding process_events_def
proof (induction evs arbitrary: c)
  case Nil
  then show ?case by simp
next
  case (Cons e evs)
  have "selection_ok R (snd (handle_event R env c e))"
    using Cons.prems by (rule handle_event_selection_ok)
  then have "selection_ok R (snd (foldl (handle_event R env) (handle_event R env c e) evs))"
    by (rule Cons.IH)
  then show ?case by simp
qed

lemma idle_click_elsewhere:
  assumes "selected_square st = None" and "pos_to_square pos = Some sq"
    and "\<not> own_piece R st sq"
  shows "handle_click R env cur pos st = st"
  using assms by (simp add: handle_click_idle)

lemma idle_click_selects:
  assumes idle: "selected_square st = None"
    and sel: "selected_square (handle_click R env cur pos st) = Some sq"
  shows "pos_to_square pos = Some sq \<and> own_piece R st sq
           \<and> board (handle_click R env cur pos st) = board st"
proof (cases "pos_to_square pos")
  case None
  then have "handle_click R env cur pos st = st"
    by (rule handle_click_off_board)
  then show ?thesis
    using idle sel by simp
next
  case (Some sq')
  note hc = handle_click_idle [OF idle Some, of R env cur]
  show ?thesis
  proof (cases "own_piece R st sq'")
    case False
    then have "handle_click R env cur pos st = st"
      using hc by simp
    then show ?thesis
      using idle sel by simp
  next
    case True
    then have "handle_click R env cur pos st =
                 st\<lparr>selected_square := Some sq',
                    legal_moves := set (filter (\<lambda>m. from_square m = sq')
                                          (board_legal_moves R (board st))),
                    drag_piece := Some (symbol (the (piece_at R (board st) sq'))),
                    dragging := True,
                    drag_pos := Some cur\<rparr>"
      using hc by simp
    then have "selected_square (handle_click R env cur pos st) = Some sq'"
      and "board (handle_click R env cur pos st) = board st"
      by simp_all
    then show ?thesis
      using sel Some True by simp
  qed
qed

text \<open>
  Claim C6. Through every sequence of pointer events, the selected square holds a piece
  of the side to move whenever a square is selected. With no square selected, a click
  selects the clicked square only if it holds a piece whose colour is the current turn,
  and it then leaves the board as it is; a click on any other square of the board leaves
  the whole state unchanged.
\<close>

theorem selection_invariant:
  "(selection_ok R st \<longrightarrow> selection_ok R (snd (process_events R env evs (running, st))))
   \<and> (selected_square st = None \<and> pos_to_square pos = Some sq \<and> \<not> own_piece R st sq
        \<longrightarrow> handle_click R env cur pos st = st)
   \<and> (selected_square st = None \<and> selected_square (handle_click R env cur pos st) = Some sq
        \<longrightarrow> pos_to_square pos = Some sq \<and> own_piece R st sq
            \<and> board (handle_click R env cur pos st) = board st)"
proof (intro conjI impI)
  assume "selection_ok R st"
  then have "selection_ok R (snd (running, st))"
    by simp
  then show "selection_ok R (snd (process_events R env evs (running, st)))"
    by (rule process_events_selection_ok)
next
  assume "selected_square st = None \<and> pos_to_square pos = Some sq \<and> \<not> own_piece R st sq"
  then show "handle_click R env cur pos st = st"
    using idle_click_elsewhere [of st pos sq R env cur] by blast
next
  assume a: "selected_square st = None
             \<and> selected_square (handle_click R env cur pos st) = Some sq"
  note r = idle_click_selects [of st R env cur pos sq]
  show "pos_to_square pos = Some sq" using a r by blast
  show "own_piece R st sq" using a r by blast
  show "board (handle_click R env cur pos st) = board st" using a r by blast
qed

theorem selection_invariant_witness:
  "selection_ok sample_rules (sample_game (Standard, []))
   \<and> selection_ok sample_rules
        (snd (process_events sample_rules good_disk
                [(MOUSEBUTTONDOWN 1 (250, 370), (250, 370))]
                (True, sample_game (Standard, []))))
   \<and> selected_square
        (snd (process_events sample_rules good_disk
                [(MOUSEBUTTONDOWN 1 (250, 370), (250, 370))]
                (True, sample_game (Standard, [])))) = Some 12
   \<and> pos_to_square (250, 70) = Some 52
   \<and> \<not> own_piece sample_rules (sample_game (Standard, [])) 52
   \<and> handle_click sample_rules good_disk (250, 70) (250, 70) (sample_game (Standard, []))
       = sample_game (Standard, [])"
proof -
  let ?st = "sample_game (Standard, [])"
  have ok: "selection_ok sample_rules ?st"
    by (simp add: selection_ok_def sample_game_def new_game_def)
  have idle: "selected_square ?st = None"
    by (simp add: sample_game_def new_game_def)
  have sel: "selected_square
        (snd (process_events sample_rules good_disk
                [(MOUSEBUTTONDOWN 1 (250, 370), (250, 370))] (True, ?st))) = Some 12"
    by code_simp
  have pos: "pos_to_square (250, 70) = Some 52"
    by code_simp
  have other: "\<not> own_piece sample_rules ?st 52"
    by code_simp
  note inv = selection_invariant [where R = sample_rules and st = ?st and env = good_disk
      and evs = "[(MOUSEBUTTONDOWN 1 (250, 370), (250, 370))]" and running = True
      and pos = "(250, 70)" and sq = 52 and cur = "(250, 70)"]
  show ?thesis
    using ok idle sel pos other inv by blast
qed

section \<open>Rejected attempts\<close>

lemma handle_click_rejected:
  assumes "attempt_rejected st pos"
  shows "handle_click R env cur pos st =
           st\<lparr>selected_square := None, legal_moves := {}, dragging := False,
              drag_piece := None\<rparr>"
proof -
  from assms obtain sel sq where sel: "selected_square st = Some sel"
    and sq: "pos_to_square pos = Some sq"
    and no: "Move sel sq None None \<notin> legal_moves st"
    by (auto simp add: attempt_rejected_def split: option.splits)
  show ?thesis
    using handle_click_selected [OF sel sq, of R env cur] no by simp
qed

lemma handle_click_not_accepted:
  assumes "\<not> attempt_accepted st pos"
  shows "board (handle_click R env cur pos st) = board st
         \<and> game (handle_click R env cur pos st) = game st
         \<and> files (handle_click R env cur pos st) = files st
         \<and> save_calls (handle_click R env cur pos st) = save_calls st"
proof (cases "pos_to_square pos")
  case None
  then show ?thesis
    by (simp add: handle_click_off_board)
next
  case (Some sq)
  show ?thesis
  proof (cases "selected_square st")
    case None
    show ?thesis
      unfolding handle_click_idle [OF None Some, of R env cur] by simp
  next
    case (Some sel)
    have "Move sel sq None None \<notin> legal_moves st"
      using assms Some \<open>pos_to_square pos = Some sq\<close> by (simp add: attempt_accepted_def)
    then show ?thesis
      unfolding handle_click_selected [OF Some \<open>pos_to_square pos = Some sq\<close>, of R env cur]
      by simp
  qed
qed

lemma handle_event_running:
  "snd (handle_event R env (running, st) e) = snd (handle_event R env (True, st) e)"
proof -
  obtain ev cur where e: "e = (ev, cur)"
    by (cases e)
  show ?thesis
    unfolding e by (cases ev) simp_all
qed

lemma handle_event_no_commit:
  assumes "\<not> commits st (fst e)"
  shows "board (snd (handle_event R env (running, st) e)) = board st
         \<and> game (snd (handle_event R env (running, st) e)) = game st
         \<and> files (snd (handle_event R env (running, st) e)) = files st
         \<and> save_calls (snd (handle_event R env (running, st) e)) = save_calls st"
proof -
  obtain ev cur where e: "e = (ev, cur)"
    by (cases e)
  show ?thesis
  proof (cases ev)
    case QUIT
    then show ?thesis unfolding e by simp
  next
    case (MOUSEBUTTONDOWN button pos)
    show ?thesis
    proof (cases "button = 1")
      case True
      then have "\<not> attempt_accepted st pos"
        using assms e MOUSEBUTTONDOWN by simp
      then show ?thesis
        unfolding e MOUSEBUTTONDOWN using True handle_click_not_accepted [of st pos R env cur]
        by simp
    next
      case False
      then show ?thesis unfolding e MOUSEBUTTONDOWN by simp
    qed
  next
    case (MOUSEBUTTONUP button pos)
    show ?thesis
    proof (cases "button = 1 \<and> dragging st")
      case True
      then have "\<not> attempt_accepted st pos"
        using assms e MOUSEBUTTONUP by simp
      then show ?thesis
        unfolding e MOUSEBUTTONUP using True handle_click_not_accepted [of st pos R env cur]
        by simp
    next
      case False
      then show ?thesis unfolding e MOUSEBUTTONUP by auto
    qed
  next
    case (MOUSEMOTION pos)
    then show ?thesis unfolding e by simp
  next
    case OTHER_EVENT
    then show ?thesis unfolding e by simp
  qed
qed

lemma process_events_all_rejected:
  assumes "all_rejected R env st evs"
  shows "board (snd (process_events R env evs (running, st))) = board st
         \<and> game (snd (process_events R env evs (running, st))) = game st
         \<and> files (snd (process_events R env evs (running, st))) = files st
         \<and> save_calls (snd (process_events R env evs (running, st))) = save_calls st"
  using assms
proof (induction evs arbitrary: running st)
  case Nil
  then show ?case
    by (simp add: process_events_def)
next
  case (Cons e evs)
  obtain running1 st1 where h: "handle_event R env (running, st) e = (running1, st1)"
    by (cases "handle_event R env (running, st) e")
  have st1: "st1 = snd (handle_event R env (True, st) e)"
    using h handle_event_running [of R env running st e] by simp
  have nc: "\<not> commits st (fst e)" and rest: "all_rejected R env st1 evs"
    using Cons.prems st1 by simp_all
  have step: "board st1 = board st \<and> game st1 = game st \<and> files st1 = files st
              \<and> save_calls st1 = save_calls st"
    using handle_event_no_commit [OF nc, of R env running] h by simp
  have "process_events R env (e # evs) (running, st) = process_events R env evs (running1, st1)"
    by (simp add: process_events_def h)
  then show ?case
    using Cons.IH [OF rest, of running1] step by simp
qed

text \<open>
  Claim C7. A second click on a square \<open>t\<close> for which the move from the selected square
  to \<open>t\<close> is not in the set of legal moves kept at selection leaves the board and the
  game record unchanged and clears the selection (no selected square, no kept moves, no
  dragging, no dragged piece). However often such clicks are repeated, with selections
  in between, the board, the game record and the saved files stay as they were.
\<close>

theorem rejected_attempts_change_nothing:
  "(attempt_rejected st pos \<longrightarrow>
      handle_click R env cur pos st =
        st\<lparr>selected_square := None, legal_moves := {}, dragging := False,
           drag_piece := None\<rparr>)
   \<and> (all_rejected R env st evs \<longrightarrow>
        board (snd (process_events R env evs (running, st))) = board st
        \<and> game (snd (process_events R env evs (running, st))) = game st
        \<and> files (snd (process_events R env evs (running, st))) = files st
        \<and> save_calls (snd (process_events R env evs (running, st))) = save_calls st)"
  using handle_click_rejected [of st pos R env cur]
    process_events_all_rejected [of R env st evs running]
  by blast

theorem rejected_attempts_change_nothing_witness:
  "attempt_rejected e2_selected (250, 190)
   \<and> selected_square
        (handle_click sample_rules good_disk (250, 190) (250, 190) e2_selected) = None
   \<and> board (handle_click sample_rules good_disk (250, 190) (250, 190) e2_selected)
       = (Standard, [])
   \<and> all_rejected sample_rules good_disk (sample_game (Standard, [])) clicks_e2_e5_twice
   \<and> board (snd (process_events sample_rules good_disk clicks_e2_e5_twice
                    (True, sample_game (Standard, [])))) = (Standard, [])
   \<and> mainline (game (snd (process_events sample_rules good_disk clicks_e2_e5_twice
                             (True, sample_game (Standard, []))))) = []"
proof -
  have r: "attempt_rejected e2_selected (250, 190)"
    by code_simp
  have a: "all_rejected sample_rules good_disk (sample_game (Standard, [])) clicks_e2_e5_twice"
    by code_simp
  have b: "board e2_selected = (Standard, [])"
    by code_simp
  have g: "board (sample_game (Standard, [])) = (Standard, [])"
    "mainline (game (sample_game (Standard, []))) = []"
    by (simp_all add: sample_game_def new_game_def)
  note one = rejected_attempts_change_nothing [where st = e2_selected and pos = "(250, 190)"
      and R = sample_rules and env = good_disk and cur = "(250, 190)" and evs = "[]"
      and running = True]
  note many = rejected_attempts_change_nothing [where st = "sample_game (Standard, [])"
      and pos = "(250, 190)" and R = sample_rules and env = good_disk and cur = "(250, 190)"
      and evs = clicks_e2_e5_twice and running = True]
  have c: "handle_click sample_rules good_disk (250, 190) (250, 190) e2_selected =
             e2_selected\<lparr>selected_square := None, legal_moves := {}, dragging := False,
                drag_piece := None\<rparr>"
    using r one by blast
  show ?thesis
    using r a b g c many by simp
qed

section \<open>Saving the game\<close>

lemma save_game_failing:
  assumes "disk env (save_calls st) \<noteq> DiskOk"
  shows "\<exists>msg fs. save_game env st =
           st\<lparr>save_calls := save_calls st + 1, files := fs,
              log_lines := log_lines st @ [(ERROR, ''Failed to save game: '' @ msg)]\<rparr>"
proof (cases "disk env (save_calls st)")
  case DiskOk
  then show ?thesis using assms by simp
next
  case (FailsBeforeOpen msg)
  then have "save_game env st =
           st\<lparr>save_calls := save_calls st + 1, files := files st,
              log_lines := log_lines st @ [(ERROR, ''Failed to save game: '' @ msg)]\<rparr>"
    by (simp add: save_game_def save_game_try_def Let_def)
  then show ?thesis by blast
next
  case (FailsAfterOpen msg)
  then have "save_game env st =
           st\<lparr>save_calls := save_calls st + 1,
              files := (files st)(save_game_filename env (save_calls st) \<mapsto> Incomplete),
              log_lines := log_lines st @ [(ERROR, ''Failed to save game: '' @ msg)]\<rparr>"
    by (simp add: save_game_def save_game_try_def Let_def)
  then show ?thesis by blast
qed

lemma save_game_working:
  assumes "disk env (save_calls st) = DiskOk"
  shows "files (save_game env st) (save_game_filename env (save_calls st))
           = Some (Written (game st))"
  using assms by (simp add: save_game_def save_game_try_def Let_def)

text \<open>
  Claim C8. When a call of \<open>save_game\<close> meets an I/O error, the call still returns (the
  model of \<open>save_game\<close> has no exceptional result: its handler catches the only
  exception of its body), the failure is the last line logged, and the game record and
  the board are unchanged. A later call that works writes the whole record: when the
  save of a first move fails and the save of a second move works, the file written then
  holds both moves after those already in the record.
\<close>

theorem save_failure_is_absorbed:
  assumes "disk env (save_calls st) \<noteq> DiskOk"
    and "disk env (save_calls st + 1) = DiskOk"
  shows "game (save_game env st) = game st
         \<and> board (save_game env st) = board st
         \<and> (\<exists>msg. last (log_lines (save_game env st))
                     = (ERROR, ''Failed to save game: '' @ msg))
         \<and> files (save_game env (save_game env st))
              (save_game_filename env (save_calls st + 1)) = Some (Written (game st))
         \<and> mainline (game (make_move R env m2 (make_move R env m1 st)))
             = mainline (game st) @ [m1, m2]
         \<and> files (make_move R env m2 (make_move R env m1 st))
              (save_game_filename env (save_calls st + 1))
             = Some (Written (game (make_move R env m2 (make_move R env m1 st))))"
proof -
  obtain msg fs where f: "save_game env st =
           st\<lparr>save_calls := save_calls st + 1, files := fs,
              log_lines := log_lines st @ [(ERROR, ''Failed to save game: '' @ msg)]\<rparr>"
    using save_game_failing [OF assms(1)] by blast
  have logged: "\<exists>msg. last (log_lines (save_game env st))
                     = (ERROR, ''Failed to save game: '' @ msg)"
    unfolding f by simp
  have again: "disk env (save_calls (save_game env st)) = DiskOk"
    using assms(2) by (simp add: save_game_keeps)
  have later: "files (save_game env (save_game env st))
              (save_game_filename env (save_calls st + 1)) = Some (Written (game st))"
    using save_game_working [OF again] by (simp add: save_game_keeps)
  let ?st1 = "make_move R env m1 st"
  let ?mid = "?st1\<lparr>board := push R (board ?st1) m2,
                    game := (game ?st1)\<lparr>mainline := mainline (game ?st1) @ [m2]\<rparr>\<rparr>"
  have calls: "save_calls ?mid = save_calls st + 1"
    by (simp add: make_move_board)
  have ok2: "disk env (save_calls ?mid) = DiskOk"
    using assms(2) calls by simp
  have "files (save_game env ?mid) (save_game_filename env (save_calls ?mid))
          = Some (Written (game ?mid))"
    by (rule save_game_working [OF ok2])
  then have written: "files (make_move R env m2 ?st1)
              (save_game_filename env (save_calls st + 1))
             = Some (Written (game (make_move R env m2 ?st1)))"
    by (simp add: make_move_def [of R env m2] save_game_keeps calls)
  show ?thesis
    using logged later written by (simp add: save_game_keeps make_move_board)
qed

theorem save_failure_is_absorbed_witness:
  "disk bad_then_good_disk (save_calls (sample_game (Standard, []))) \<noteq> DiskOk
   \<and> disk bad_then_good_disk (save_calls (sample_game (Standard, [])) + 1) = DiskOk
   \<and> game (save_game bad_then_good_disk (sample_game (Standard, [])))
       = game (sample_game (Standard, []))
   \<and> mainline (game (make_move sample_rules bad_then_good_disk (mv_of ''d7d5'')
                       (make_move sample_rules bad_then_good_disk (mv_of ''e2e4'')
                          (sample_game (Standard, [])))))
       = [mv_of ''e2e4'', mv_of ''d7d5'']
   \<and> files (make_move sample_rules bad_then_good_disk (mv_of ''d7d5'')
              (make_move sample_rules bad_then_good_disk (mv_of ''e2e4'')
                 (sample_game (Standard, []))))
        ''games/game_20240101_000001.pgn''
       = Some (Written (game (make_move sample_rules bad_then_good_disk (mv_of ''d7d5'')
                                (make_move sample_rules bad_then_good_disk (mv_of ''e2e4'')
                                   (sample_game (Standard, []))))))"
proof -
  let ?st = "sample_game (Standard, [])"
  have c: "save_calls ?st = 0" "mainline (game ?st) = []"
    by (simp_all add: sample_game_def new_game_def)
  have bad: "disk bad_then_good_disk (save_calls ?st) \<noteq> DiskOk"
    by (simp add: c bad_then_good_disk_def)
  have good: "disk bad_then_good_disk (save_calls ?st + 1) = DiskOk"
    by (simp add: c bad_then_good_disk_def)
  have name: "save_game_filename bad_then_good_disk (save_calls ?st + 1)
                = ''games/game_20240101_000001.pgn''"
    unfolding c by code_simp
  note w = save_failure_is_absorbed [OF bad good, of sample_rules "mv_of ''d7d5''"
      "mv_of ''e2e4''"]
  show ?thesis
    using bad good w c name by simp
qed

section \<open>Runs of the main loop\<close>

lemma invalid_ai_move_saves_nothing:
  "fst (invalid_ai_move st) = Broken
   \<and> save_calls (snd (invalid_ai_move st)) = save_calls st
   \<and> files (snd (invalid_ai_move st)) = files st"
  by (simp add: invalid_ai_move_def)

lemma game_over_check_saves:
  "is_game_over R (board st) \<Longrightarrow>
   fst (game_over_check R env running st) = Stopped
   \<and> save_calls (snd (game_over_check R env running st)) = save_calls st + 1"
  by (simp add: game_over_check_def Let_def save_game_keeps)

text \<open>
  Claim C1. The claim is that a rejected suggestion ends the session as aborted with
  exactly one final save on entry to the terminated state. In the code the rejection
  leaves the loop by \<open>break\<close>, which skips the save that the end of a game makes
  (\<open>game_over_check_saves\<close>): after the human's e2-e4, saved once by \<open>make_move\<close>, the
  service answers \<open>e7e4\<close>, which is not a legal move; the loop is left with the count of
  saves still at one.
\<close>

theorem rejected_suggestion_breaks_without_save:
  "summary (loop_body sample_rules good_disk clicks_e2_e4 (answers ''e7e4'')
              (sample_game (Standard, [])))
     = Inr (Broken, (Standard, [mv_of ''e2e4'']), [mv_of ''e2e4''], None, 1)"
  by code_simp

text \<open>
  Claim C3. The claim is that the second click commits the move exactly when the move
  from the selected square to the clicked square, as a full move with its promotion
  piece where one applies, is legal, so that a legal promotion can be committed. The
  code builds the move without a promotion piece: with the pawn on a7 selected, the
  promotion a7a8q is legal and in the kept set, and the click on a8 changes neither the
  board nor the record and clears the selection.
\<close>

theorem promotion_click_is_not_committed:
  "mv_of ''a7a8q'' \<in> set (board_legal_moves sample_rules (PawnEnding, []))
   \<and> selected_square a7_selected = Some 48
   \<and> mv_of ''a7a8q'' \<in> legal_moves a7_selected
   \<and> pos_to_square (5, 5) = Some 56
   \<and> board (handle_click sample_rules good_disk (5, 5) (5, 5) a7_selected) = (PawnEnding, [])
   \<and> mainline (game (handle_click sample_rules good_disk (5, 5) (5, 5) a7_selected)) = []
   \<and> selected_square (handle_click sample_rules good_disk (5, 5) (5, 5) a7_selected) = None"
  by code_simp

text \<open>
  Claim C4. The claim is that every move applied to the board is legal in the position
  it is applied to. The set of legal moves kept at selection is not renewed when the
  opponent's move changes the board: after the iteration above the pawn on e7 is still
  selected, White is to move, and e7e6 is not a legal move; releasing the button on e6
  pushes e7e6 on the board and appends it to the record.
\<close>

theorem stale_selection_is_committed:
  "summary (loop_body sample_rules good_disk clicks_e2_e4_e7 (answers ''d7d5'')
              (sample_game (Standard, [])))
     = Inr (Running, (Standard, [mv_of ''e2e4'', mv_of ''d7d5'']),
            [mv_of ''e2e4'', mv_of ''d7d5''], Some 52, 2)
   \<and> turn sample_rules (board after_d7d5) = WHITE_side
   \<and> mv_of ''e7e6'' \<notin> set (board_legal_moves sample_rules (board after_d7d5))
   \<and> board (snd (process_events sample_rules good_disk
                    [(MOUSEBUTTONUP 1 (250, 130), (250, 130))] (True, after_d7d5)))
       = (Standard, [mv_of ''e2e4'', mv_of ''d7d5'', mv_of ''e7e6''])
   \<and> mainline (game (snd (process_events sample_rules good_disk
                             [(MOUSEBUTTONUP 1 (250, 130), (250, 130))] (True, after_d7d5))))
       = [mv_of ''e2e4'', mv_of ''d7d5'', mv_of ''e7e6'']"
  by code_simp

end
